theory Spec2Isabelle
  imports Complex_Main
begin

unbundle bit_operations_syntax

section \<open>The session manager of \<^verbatim>\<open>session_management.js\<close>\<close>

text \<open>
  The class \<^verbatim>\<open>SessionManager\<close> keeps three mutable fields (\<^verbatim>\<open>sessionId\<close>,
  \<^verbatim>\<open>isActive\<close>, \<^verbatim>\<open>inactivityTimer\<close>) and talks to four parts of
  the browser: the \<^verbatim>\<open>chatbot_session_id\<close> slot of \<^verbatim>\<open>sessionStorage\<close>, the
  timeouts scheduled with \<^verbatim>\<open>setTimeout\<close>, the network (\<^verbatim>\<open>fetch\<close>) and the
  \<^verbatim>\<open>sessionChanged\<close> events dispatched on \<^verbatim>\<open>window\<close>. All of it is one
  record that every method takes and returns. What \<^verbatim>\<open>fetch\<close> answers and what
  \<^verbatim>\<open>Math.random\<close> draws are arguments of the methods that ask for them.
  An \<^verbatim>\<open>async\<close> method is modelled as run to completion with the answer of its
  one \<^verbatim>\<open>fetch\<close>; calls to \<^verbatim>\<open>console.log\<close> and \<^verbatim>\<open>console.error\<close> are left
  out.
\<close>

subsection \<open>Values of the JavaScript side\<close>

text \<open>A thrown value: the name of the error class and its message.\<close>

datatype js_error = JsError string string

text \<open>
  What \<^verbatim>\<open>await fetch(...)\<close> gives: the promise is rejected (network or transport
  error), or it resolves to a response with \<^verbatim>\<open>ok\<close>, \<^verbatim>\<open>statusText\<close> and a body
  that \<^verbatim>\<open>response.json()\<close> either parses or rejects.
\<close>

datatype 'b response = Response (ok: bool) (statusText: string) (json: "js_error + 'b")

datatype 'b fetch_result = Rejected js_error | Resolved "'b response"

datatype body = JsonBody "(string \<times> string) list" | FormData "(string \<times> string) list" | NoBody

record request =
  url :: string
  http_method :: string
  headers :: "(string \<times> string) list"
  payload :: body

text \<open>The JSON object of a successful upload: a \<^verbatim>\<open>session_id\<close> and further fields.\<close>

record upload_result =
  session_id :: string

record state =
  sessionId :: "string option"
  isActive :: bool
  inactivityTimer :: "nat option"
  storage :: "string option"
  timers :: "(nat \<times> nat) list"
  nextTimerId :: nat
  requests :: "request list"
  dispatched :: "string option list"

text \<open>
  \<^verbatim>\<open>sessionId\<close> is \<^verbatim>\<open>null\<close> (\<open>None\<close>) or a string; \<^verbatim>\<open>inactivityTimer\<close> is
  \<^verbatim>\<open>null\<close> or the handle \<^verbatim>\<open>setTimeout\<close> returned. \<open>timers\<close> are the pending
  timeouts of the page, each a handle with the milliseconds left before it is due, and
  \<open>nextTimerId\<close> is the handle the next \<^verbatim>\<open>setTimeout\<close> returns. \<open>requests\<close> are
  the calls to \<^verbatim>\<open>fetch\<close> made so far, \<open>dispatched\<close> the \<^verbatim>\<open>detail.sessionId\<close> of
  every \<^verbatim>\<open>sessionChanged\<close> event raised so far.
\<close>

definition INACTIVITY_TIMEOUT :: nat where
  "INACTIVITY_TIMEOUT = 5 * 60 * 1000"

definition API_BASE_URL :: string where
  "API_BASE_URL = ''http://localhost:8000''"

text \<open>
  JavaScript's \<^verbatim>\<open>!v\<close> on \<^verbatim>\<open>null\<close> or a string: \<^verbatim>\<open>null\<close> and the empty string
  are falsy, every other string is truthy. The methods below test \<^verbatim>\<open>!this.sessionId\<close>
  by cases on the field, which binds the string where there is one; \<open>falsy\<close> names
  the test in the statements. Of the numbers \<^verbatim>\<open>0\<close> is falsy, so
  \<^verbatim>\<open>if (this.inactivityTimer)\<close> fails on \<^verbatim>\<open>null\<close> and on a handle \<open>0\<close>.
\<close>

definition falsy :: "string option \<Rightarrow> bool" where
  "falsy v = (case v of None \<Rightarrow> True | Some s \<Rightarrow> s = [])"

subsection \<open>\<^verbatim>\<open>generateSessionId\<close>\<close>

definition hex_digits :: string where
  "hex_digits = ''0123456789abcdef''"

text \<open>\<^verbatim>\<open>Number.prototype.toString(16)\<close> on an integer.\<close>

fun toString16_nat :: "nat \<Rightarrow> string" where
  "toString16_nat n =
     (if n < 16 then [hex_digits ! n]
      else toString16_nat (n div 16) @ [hex_digits ! (n mod 16)])"

declare toString16_nat.simps [simp del]

definition toString16 :: "int \<Rightarrow> string" where
  "toString16 v =
     (if v < 0 then CHR ''-'' # toString16_nat (nat (- v)) else toString16_nat (nat v))"

text \<open>
  The callback of \<^verbatim>\<open>replace\<close>: \<open>x\<close> is what \<^verbatim>\<open>Math.random()\<close> returned,
  \<^verbatim>\<open>x * 16 | 0\<close> truncates the product to an integer (the product is never negative,
  so truncation is \<open>floor\<close>), and \<^verbatim>\<open>r & 0x3 | 0x8\<close> is \<^verbatim>\<open>(r & 0x3) | 0x8\<close>.
\<close>

definition replacement :: "char \<Rightarrow> real \<Rightarrow> string" where
  "replacement c x =
     (let r = \<lfloor>x * 16\<rfloor>;
          v = (if c = CHR ''x'' then r else (r AND 3) OR 8)
      in toString16 v)"

text \<open>
  \<^verbatim>\<open>template.replace(/[xy]/g, f)\<close>: every \<^verbatim>\<open>x\<close> and \<^verbatim>\<open>y\<close>, from left to right,
  is replaced by what the callback returns; the \<open>i\<close>-th call of the callback makes the
  \<open>i\<close>-th draw \<open>rnd i\<close>.
\<close>

fun replace_xy :: "(nat \<Rightarrow> real) \<Rightarrow> nat \<Rightarrow> string \<Rightarrow> string" where
  "replace_xy rnd i [] = []"
| "replace_xy rnd i (c # cs) =
     (if c = CHR ''x'' \<or> c = CHR ''y''
      then replacement c (rnd i) @ replace_xy rnd (Suc i) cs
      else c # replace_xy rnd i cs)"

definition template :: string where
  "template = ''xxxxxxxx-xxxx-4xxx-yxxx-xxxxxxxxxxxx''"

definition generateSessionId :: "(nat \<Rightarrow> real) \<Rightarrow> string" where
  "generateSessionId rnd = replace_xy rnd 0 template"

subsection \<open>\<^verbatim>\<open>sessionStorage\<close>, \<^verbatim>\<open>setTimeout\<close>, \<^verbatim>\<open>fetch\<close>\<close>

text \<open>
  \<^verbatim>\<open>sessionStorage.setItem\<close> stores the string conversion of its argument; the only
  key the script uses is \<^verbatim>\<open>chatbot_session_id\<close>.
\<close>

definition setItem :: "string option \<Rightarrow> state \<Rightarrow> state" where
  "setItem v s = s\<lparr>storage := Some (case v of None \<Rightarrow> ''null'' | Some x \<Rightarrow> x)\<rparr>"

definition removeItem :: "state \<Rightarrow> state" where
  "removeItem s = s\<lparr>storage := None\<rparr>"

definition setTimeout :: "nat \<Rightarrow> state \<Rightarrow> nat \<times> state" where
  "setTimeout delay s =
     (nextTimerId s,
      s\<lparr>timers := timers s @ [(nextTimerId s, delay)], nextTimerId := Suc (nextTimerId s)\<rparr>)"

definition clearTimeout :: "nat \<Rightarrow> state \<Rightarrow> state" where
  "clearTimeout h s = s\<lparr>timers := filter (\<lambda>p. fst p \<noteq> h) (timers s)\<rparr>"

definition fetch :: "request \<Rightarrow> state \<Rightarrow> state" where
  "fetch req s = s\<lparr>requests := requests s @ [req]\<rparr>"

subsection \<open>The methods of \<^verbatim>\<open>SessionManager\<close>\<close>

definition getOrCreateSessionId :: "(nat \<Rightarrow> real) \<Rightarrow> state \<Rightarrow> string \<times> state" where
  "getOrCreateSessionId rnd s =
     (case storage s of
        None \<Rightarrow> (let sid = generateSessionId rnd in (sid, setItem (Some sid) s))
      | Some v \<Rightarrow>
          if v = [] then (let sid = generateSessionId rnd in (sid, setItem (Some sid) s))
          else (v, s))"

definition clearInactivityTimer :: "state \<Rightarrow> state" where
  "clearInactivityTimer s =
     (case inactivityTimer s of
        None \<Rightarrow> s
      | Some h \<Rightarrow> if h \<noteq> 0 then (clearTimeout h s)\<lparr>inactivityTimer := None\<rparr> else s)"

definition startInactivityTimer :: "state \<Rightarrow> state" where
  "startInactivityTimer s =
     (let s1 = clearInactivityTimer s;
          (h, s2) = setTimeout INACTIVITY_TIMEOUT s1
      in s2\<lparr>inactivityTimer := Some h\<rparr>)"

definition resetInactivityTimer :: "state \<Rightarrow> state" where
  "resetInactivityTimer s =
     (if \<not> isActive s then s
      else startInactivityTimer (clearInactivityTimer s))"

definition onActivityResume :: "state \<Rightarrow> state" where
  "onActivityResume s = clearInactivityTimer (s\<lparr>isActive := True\<rparr>)"

definition onActivityPause :: "state \<Rightarrow> state" where
  "onActivityPause s = startInactivityTimer (s\<lparr>isActive := False\<rparr>)"

definition delete_request :: "string \<Rightarrow> request" where
  "delete_request sid =
     \<lparr>url = API_BASE_URL @ ''/delete/'', http_method = ''POST'',
      headers = [(''Content-Type'', ''application/json'')],
      payload = JsonBody [(''session_id'', sid)]\<rparr>"

text \<open>
  \<^verbatim>\<open>cleanupSession\<close>: \<open>r\<close> is what the \<^verbatim>\<open>fetch\<close> of the delete request gives, if
  the request is made. The \<^verbatim>\<open>catch\<close> swallows a rejected \<^verbatim>\<open>fetch\<close>, so the
  method never throws.
\<close>

definition cleanupSession :: "'b fetch_result \<Rightarrow> state \<Rightarrow> state" where
  "cleanupSession r s =
     (case sessionId s of
        None \<Rightarrow> s
      | Some sid \<Rightarrow>
          if sid = [] then s
          else
            (let s1 = fetch (delete_request sid) s
             in case r of
                  Rejected e \<Rightarrow> s1
                | Resolved resp \<Rightarrow>
                    if ok resp then (removeItem s1)\<lparr>sessionId := None\<rparr> else s1))"

definition notifySessionChange :: "state \<Rightarrow> state" where
  "notifySessionChange s = s\<lparr>dispatched := dispatched s @ [sessionId s]\<rparr>"

definition manualCleanup :: "'b fetch_result \<Rightarrow> (nat \<Rightarrow> real) \<Rightarrow> state \<Rightarrow> state" where
  "manualCleanup r rnd s =
     (let s1 = cleanupSession r s;
          s2 = s1\<lparr>sessionId := Some (generateSessionId rnd)\<rparr>;
          s3 = setItem (sessionId s2) s2
      in notifySessionChange s3)"

text \<open>
  \<^verbatim>\<open>uploadFiles\<close> and \<^verbatim>\<open>sendMessage\<close> return a value or throw: the result is
  \<open>Inr\<close> the value or \<open>Inl\<close> the error, beside the new state. Their \<^verbatim>\<open>catch\<close>
  rethrows what it caught. A file is the string of its contents.
\<close>

definition upload_request :: "string list \<Rightarrow> request" where
  "upload_request files =
     \<lparr>url = API_BASE_URL @ ''/upload/'', http_method = ''POST'', headers = [],
      payload = FormData (foldl (\<lambda>formData file. formData @ [(''files'', file)]) [] files)\<rparr>"

definition uploadFiles ::
  "string list \<Rightarrow> ('z upload_result_scheme) fetch_result \<Rightarrow> state
     \<Rightarrow> (js_error + 'z upload_result_scheme) \<times> state" where
  "uploadFiles files r s =
     (let s1 = fetch (upload_request files) s
      in case r of
           Rejected e \<Rightarrow> (Inl e, s1)
         | Resolved resp \<Rightarrow>
             if ok resp then
               (case json resp of
                  Inl e \<Rightarrow> (Inl e, s1)
                | Inr result \<Rightarrow>
                    (let s2 = s1\<lparr>sessionId := Some (session_id result)\<rparr>;
                         s3 = setItem (sessionId s2) s2
                     in (Inr result, s3)))
             else (Inl (JsError ''Error'' (''Upload failed: '' @ statusText resp)), s1))"

definition chat_request :: "string \<Rightarrow> string \<Rightarrow> request" where
  "chat_request message sid =
     \<lparr>url = API_BASE_URL @ ''/chat/'', http_method = ''POST'',
      headers = [(''Content-Type'', ''application/json'')],
      payload = JsonBody [(''query'', message), (''session_id'', sid)]\<rparr>"

definition no_active_session :: js_error where
  "no_active_session = JsError ''Error'' ''No active session. Please upload documents first.''"

definition sendMessage :: "string \<Rightarrow> 'b fetch_result \<Rightarrow> state \<Rightarrow> (js_error + 'b) \<times> state" where
  "sendMessage message r s =
     (case sessionId s of
        None \<Rightarrow> (Inl no_active_session, s)
      | Some sid \<Rightarrow>
          if sid = [] then (Inl no_active_session, s)
          else
            (let s1 = fetch (chat_request message sid) s
             in case r of
                  Rejected e \<Rightarrow> (Inl e, s1)
                | Resolved resp \<Rightarrow>
                    if ok resp then
                      (case json resp of Inl e \<Rightarrow> (Inl e, s1) | Inr v \<Rightarrow> (Inr v, s1))
                    else (Inl (JsError ''Error'' (''Chat failed: '' @ statusText resp)), s1)))"

text \<open>
  The constructor and \<^verbatim>\<open>init\<close>, on a freshly loaded page whose storage slot holds
  \<open>stored\<close>: no timeout is pending, the first handle is \<open>1\<close> (handles of
  \<^verbatim>\<open>setTimeout\<close> are positive), nothing was fetched or dispatched.
\<close>

definition fresh_page :: "string option \<Rightarrow> state" where
  "fresh_page stored =
     \<lparr>sessionId = None, isActive = True, inactivityTimer = None, storage = stored,
      timers = [], nextTimerId = 1, requests = [], dispatched = []\<rparr>"

definition init :: "(nat \<Rightarrow> real) \<Rightarrow> state \<Rightarrow> state" where
  "init rnd s = (let (sid, s1) = getOrCreateSessionId rnd s in s1\<lparr>sessionId := Some sid\<rparr>)"

definition constructor :: "(nat \<Rightarrow> real) \<Rightarrow> string option \<Rightarrow> state" where
  "constructor rnd stored = init rnd (fresh_page stored)"

subsection \<open>Events\<close>

text \<open>
  The listeners registered by \<^verbatim>\<open>setupActivityListeners\<close> and
  \<^verbatim>\<open>setupVisibilityListener\<close>. A \<^verbatim>\<open>visibilitychange\<close> event comes with the value
  of \<^verbatim>\<open>document.hidden\<close> at that moment.
\<close>

datatype activity_event = MouseDown | MouseMove | KeyPress | Scroll | TouchStart

datatype event = Focus | Blur | VisibilityChange bool | Activity activity_event

fun dispatch :: "event \<Rightarrow> state \<Rightarrow> state" where
  "dispatch Focus s = onActivityResume s"
| "dispatch Blur s = onActivityPause s"
| "dispatch (VisibilityChange hidden) s =
     (if hidden then onActivityPause s else onActivityResume s)"
| "dispatch (Activity a) s = resetInactivityTimer s"

fun deliver :: "event list \<Rightarrow> state \<Rightarrow> state" where
  "deliver [] s = s"
| "deliver (e # es) s = deliver es (dispatch e s)"

text \<open>The \<^verbatim>\<open>beforeunload\<close> listener.\<close>

definition beforeunload :: "'b fetch_result \<Rightarrow> state \<Rightarrow> state" where
  "beforeunload r s = cleanupSession r s"

text \<open>
  Time: after \<open>d\<close> milliseconds every pending timeout has \<open>d\<close> milliseconds less to
  wait. A timeout with nothing left to wait is due; when the browser runs it, it is no
  longer pending and its callback, which calls \<^verbatim>\<open>cleanupSession\<close>, runs. A timeout
  that is not due cannot fire (\<open>None\<close>).
\<close>

definition elapse :: "nat \<Rightarrow> state \<Rightarrow> state" where
  "elapse d s = s\<lparr>timers := map (\<lambda>p. (fst p, snd p - d)) (timers s)\<rparr>"

definition fire :: "nat \<Rightarrow> 'b fetch_result \<Rightarrow> state \<Rightarrow> state option" where
  "fire h r s =
     (if (h, 0) \<in> set (timers s)
      then Some (cleanupSession r (s\<lparr>timers := filter (\<lambda>p. fst p \<noteq> h) (timers s)\<rparr>))
      else None)"

subsection \<open>Notions used in the statements\<close>

text \<open>
  The canonical shape, position by position: 36 characters, hyphens at 8, 13, 18 and
  23, the version nibble \<^verbatim>\<open>4\<close> at 14, the variant nibble at 19 one of
  \<^verbatim>\<open>8 9 a b\<close>, a lowercase hexadecimal digit everywhere else.
\<close>

definition canonical :: "string \<Rightarrow> bool" where
  "canonical s =
     (length s = 36 \<and>
      (\<forall>i \<in> {..<36}.
         if i \<in> {8, 13, 18, 23} then s ! i = CHR ''-''
         else if i = 14 then s ! i = CHR ''4''
         else if i = 19 then s ! i \<in> set ''89ab''
         else s ! i \<in> set hex_digits))"

text \<open>The same shape read off the template, character by character.\<close>

definition shape_ok :: "char \<Rightarrow> char \<Rightarrow> bool" where
  "shape_ok p c =
     (if p = CHR ''x'' then c \<in> set hex_digits
      else if p = CHR ''y'' then c \<in> set ''89ab''
      else c = p)"

text \<open>\<^verbatim>\<open>Math.random()\<close> returns a number in \<open>[0, 1)\<close>.\<close>

definition unit_interval :: "(nat \<Rightarrow> real) \<Rightarrow> bool" where
  "unit_interval rnd = (\<forall>i. 0 \<le> rnd i \<and> rnd i < 1)"

text \<open>
  The inactivity timer is armed when the handle the manager holds is that of a pending
  timeout; \<open>remaining\<close> is what that timeout still has to wait.
\<close>

definition armed :: "state \<Rightarrow> bool" where
  "armed s = (case inactivityTimer s of None \<Rightarrow> False | Some h \<Rightarrow> h \<in> fst ` set (timers s))"

definition remaining :: "state \<Rightarrow> nat option" where
  "remaining s = (case inactivityTimer s of None \<Rightarrow> None | Some h \<Rightarrow> map_of (timers s) h)"

text \<open>
  Handles are handed out in increasing order: every pending timeout, and the handle the
  manager holds, is older than the next handle.
\<close>

definition handles_fresh :: "state \<Rightarrow> bool" where
  "handles_fresh s =
     ((\<forall>p \<in> set (timers s). fst p < nextTimerId s) \<and>
      (case inactivityTimer s of None \<Rightarrow> True | Some h \<Rightarrow> h < nextTimerId s))"

definition is_activity :: "event \<Rightarrow> bool" where
  "is_activity e = (case e of Activity a \<Rightarrow> True | _ \<Rightarrow> False)"

text \<open>The most recent focus, blur or visibility event of a sequence, if there is one.\<close>

definition most_recent :: "event list \<Rightarrow> event option" where
  "most_recent evs =
     (case rev (filter (\<lambda>e. \<not> is_activity e) evs) of [] \<Rightarrow> None | e # es \<Rightarrow> Some e)"

definition fetch_succeeded :: "'b fetch_result \<Rightarrow> bool" where
  "fetch_succeeded r = (case r of Rejected e \<Rightarrow> False | Resolved resp \<Rightarrow> ok resp)"

text \<open>
  While only focus, blur, visibility and input events are delivered, the page has no
  timeout but the one whose handle the manager holds, and that one has the full delay;
  the handle is positive and older than the next one.
\<close>

definition timer_inv :: "state \<Rightarrow> bool" where
  "timer_inv s =
     (0 < nextTimerId s \<and>
      (case inactivityTimer s of
         None \<Rightarrow> timers s = []
       | Some h \<Rightarrow> timers s = [(h, INACTIVITY_TIMEOUT)] \<and> 0 < h \<and> h < nextTimerId s))"

text \<open>A run of \<^verbatim>\<open>sendMessage\<close> calls, each with its message and the answer it gets.\<close>

fun sendMessages :: "(string \<times> 'b fetch_result) list \<Rightarrow> state \<Rightarrow> state" where
  "sendMessages [] s = s"
| "sendMessages ((m, r) # ms) s = sendMessages ms (snd (sendMessage m r s))"

subsection \<open>Concrete pages and answers\<close>

text \<open>
  A page whose storage slot already holds \<^verbatim>\<open>S1\<close>; the same page after a blur; the
  same page one second after a blur, a focus and a scroll; and the page after an upload
  that the server answered with an empty \<^verbatim>\<open>session_id\<close>.
\<close>

definition half_draws :: "nat \<Rightarrow> real" where
  "half_draws = (\<lambda>i. 1 / 2)"

definition ok_response :: "unit fetch_result" where
  "ok_response = Resolved (Response True ''OK'' (Inr ()))"

definition error_response :: "unit fetch_result" where
  "error_response = Resolved (Response False ''Internal Server Error'' (Inr ()))"

definition chat_ok :: "string fetch_result" where
  "chat_ok = Resolved (Response True ''OK'' (Inr ''answer''))"

definition upload_empty :: "upload_result fetch_result" where
  "upload_empty = Resolved (Response True ''OK'' (Inr \<lparr>session_id = ''''\<rparr>))"

definition upload_S2 :: "upload_result fetch_result" where
  "upload_S2 = Resolved (Response True ''OK'' (Inr \<lparr>session_id = ''S2''\<rparr>))"

definition page_S1 :: state where
  "page_S1 = constructor half_draws (Some ''S1'')"

definition hidden_page :: state where
  "hidden_page = deliver [Blur] page_S1"

definition typing_page :: state where
  "typing_page = elapse 1000 (deliver [Blur, Focus, Activity Scroll] page_S1)"

definition emptied_page :: state where
  "emptied_page = snd (uploadFiles [''a.pdf''] upload_empty page_S1)"

section \<open>Identifier generation\<close>

lemma nibble_bounds:
  assumes "0 \<le> x" "x < 1"
  shows "0 \<le> \<lfloor>x * 16\<rfloor>" "\<lfloor>x * 16\<rfloor> < 16"
  using assms by (simp_all add: floor_less_iff)

lemma toString16_digit: "0 \<le> v \<Longrightarrow> v < 16 \<Longrightarrow> toString16 v = [hex_digits ! nat v]"
  by (simp add: toString16_def toString16_nat.simps)

lemma hex_digit_mem: "n < 16 \<Longrightarrow> hex_digits ! n \<in> set hex_digits"
proof -
  assume "n < 16"
  then have "n < length hex_digits" by (simp add: hex_digits_def)
  then show ?thesis by (rule nth_mem)
qed

lemma nibble_cases:
  "0 \<le> (r::int) \<Longrightarrow> r < 16 \<Longrightarrow>
    r \<in> {0, 1, 2, 3, 4, 5, 6, 7, 8, 9, 10, 11, 12, 13, 14, 15}"
  by simp arith

lemma variant_range:
  assumes "0 \<le> (r::int)" "r < 16"
  shows "(r AND 3) OR 8 \<in> {8, 9, 10, 11}"
  using nibble_cases [OF assms] by auto

lemma variant_digit:
  assumes "0 \<le> (r::int)" "r < 16"
  shows "hex_digits ! nat ((r AND 3) OR 8) \<in> set ''89ab''"
  using variant_range [OF assms] by (auto simp: hex_digits_def)

lemma replacement_x:
  assumes "0 \<le> x" "x < 1"
  shows "\<exists>c. replacement (CHR ''x'') x = [c] \<and> c \<in> set hex_digits"
proof -
  let ?r = "\<lfloor>x * 16\<rfloor>"
  have r: "0 \<le> ?r" "?r < 16" using nibble_bounds [OF assms] by simp_all
  then have "nat ?r < 16" by linarith
  then have "hex_digits ! nat ?r \<in> set hex_digits" by (rule hex_digit_mem)
  then show ?thesis by (simp add: replacement_def Let_def toString16_digit [OF r])
qed

lemma replacement_y:
  assumes "0 \<le> x" "x < 1"
  shows "\<exists>c. replacement (CHR ''y'') x = [c] \<and> c \<in> set ''89ab''"
proof -
  let ?r = "\<lfloor>x * 16\<rfloor>"
  have r: "0 \<le> ?r" "?r < 16" using nibble_bounds [OF assms] by simp_all
  have "(?r AND 3) OR 8 \<in> {8, 9, 10, 11}" by (rule variant_range [OF r])
  then have v: "0 \<le> (?r AND 3) OR 8" "(?r AND 3) OR 8 < 16" by auto
  show ?thesis
    using variant_digit [OF r] by (simp add: replacement_def Let_def toString16_digit [OF v])
qed

text \<open>
  Whatever the template, each \<^verbatim>\<open>x\<close> and \<^verbatim>\<open>y\<close> becomes exactly one character of
  the right kind and every other character stays.
\<close>

lemma replace_xy_shape:
  "unit_interval rnd \<Longrightarrow> list_all2 shape_ok t (replace_xy rnd i t)"
proof (induction t arbitrary: i)
  case Nil
  then show ?case by simp
next
  case (Cons c cs)
  have u: "0 \<le> rnd i" "rnd i < 1" using Cons.prems by (simp_all add: unit_interval_def)
  have rest: "list_all2 shape_ok cs (replace_xy rnd j cs)" for j
    by (rule Cons.IH [OF Cons.prems])
  show ?case
  proof (cases "c = CHR ''x''")
    case True
    from replacement_x [OF u] obtain d
      where d: "replacement (CHR ''x'') (rnd i) = [d]" "d \<in> set hex_digits"
      by blast
    then have "shape_ok c d" using True by (simp add: shape_ok_def)
    with True rest d(1) show ?thesis by simp
  next
    case False
    show ?thesis
    proof (cases "c = CHR ''y''")
      case True
      from replacement_y [OF u] obtain d
        where d: "replacement (CHR ''y'') (rnd i) = [d]" "d \<in> set ''89ab''"
        by blast
      then have "shape_ok c d" using True by (simp add: shape_ok_def)
      with True rest d(1) show ?thesis by simp
    next
      case nony: False
      with False have "shape_ok c c" by (simp add: shape_ok_def)
      with False nony rest show ?thesis by simp
    qed
  qed
qed

lemma template_nth:
  "i < 36 \<Longrightarrow> template ! i =
     (if i \<in> {8, 13, 18, 23} then CHR ''-'' else if i = 14 then CHR ''4''
      else if i = 19 then CHR ''y'' else CHR ''x'')"
  unfolding template_def
  by (simp add: eval_nat_numeral less_Suc_eq) (elim disjE; simp)

lemma shape_canonical:
  assumes "list_all2 shape_ok template s"
  shows "canonical s"
proof -
  have len: "length template = 36" by (simp add: template_def)
  with assms have length_s: "length s = 36" by (simp add: list_all2_lengthD [symmetric])
  have pos:
    "if i \<in> {8, 13, 18, 23} then s ! i = CHR ''-''
     else if i = 14 then s ! i = CHR ''4''
     else if i = 19 then s ! i \<in> set ''89ab''
     else s ! i \<in> set hex_digits" if i: "i < 36" for i
  proof -
    from assms len i have "shape_ok (template ! i) (s ! i)"
      by (simp add: list_all2_nthD)
    then show ?thesis
      by (auto simp: template_nth [OF i] shape_ok_def split: if_splits)
  qed
  show ?thesis
    unfolding canonical_def
  proof (intro conjI ballI)
    show "length s = 36" by (rule length_s)
  next
    fix i :: nat
    assume "i \<in> {..<36}"
    then have "i < 36" by simp
    then show
      "if i \<in> {8, 13, 18, 23} then s ! i = CHR ''-''
       else if i = 14 then s ! i = CHR ''4''
       else if i = 19 then s ! i \<in> set ''89ab''
       else s ! i \<in> set hex_digits"
      by (rule pos)
  qed
qed

text \<open>
  C10. Whatever numbers of \<open>[0, 1)\<close> \<^verbatim>\<open>Math.random\<close> draws, the string
  \<^verbatim>\<open>generateSessionId\<close> returns has the canonical shape: 36 characters, hyphens at
  positions 8, 13, 18 and 23, the version nibble \<^verbatim>\<open>4\<close>, the variant nibble one of
  \<^verbatim>\<open>8 9 a b\<close>, and a lowercase hexadecimal digit at every other position.
\<close>

theorem generateSessionId_canonical:
  "unit_interval rnd \<Longrightarrow> canonical (generateSessionId rnd)"
  unfolding generateSessionId_def by (rule shape_canonical [OF replace_xy_shape])

theorem generateSessionId_canonical_witness:
  "unit_interval (\<lambda>i. 1 / 2) \<and> canonical (generateSessionId (\<lambda>i. 1 / 2))
   \<and> generateSessionId (\<lambda>i. 1 / 2) = ''88888888-8888-4888-8888-888888888888''"
proof -
  have u: "unit_interval (\<lambda>i. 1 / 2)" by (simp add: unit_interval_def)
  have "generateSessionId (\<lambda>i. 1 / 2) = ''88888888-8888-4888-8888-888888888888''"
    by (simp add: generateSessionId_def template_def replacement_def toString16_def
        toString16_nat.simps hex_digits_def)
  with u generateSessionId_canonical [OF u] show ?thesis by simp
qed

section \<open>The concrete pages, evaluated\<close>

lemmas page_defs = page_S1_def constructor_def init_def fresh_page_def getOrCreateSessionId_def
  setItem_def Let_def

lemmas timer_defs = onActivityResume_def onActivityPause_def resetInactivityTimer_def
  startInactivityTimer_def clearInactivityTimer_def setTimeout_def clearTimeout_def
  INACTIVITY_TIMEOUT_def

lemma page_S1_eq:
  "page_S1 = \<lparr>sessionId = Some ''S1'', isActive = True, inactivityTimer = None,
      storage = Some ''S1'', timers = [], nextTimerId = 1, requests = [], dispatched = []\<rparr>"
  by (simp add: page_defs)

lemma hidden_page_eq:
  "hidden_page = \<lparr>sessionId = Some ''S1'', isActive = False, inactivityTimer = Some 1,
      storage = Some ''S1'', timers = [(1, 300000)], nextTimerId = 2, requests = [],
      dispatched = []\<rparr>"
  by (simp add: hidden_page_def page_S1_eq timer_defs)

lemma typing_page_eq:
  "typing_page = \<lparr>sessionId = Some ''S1'', isActive = True, inactivityTimer = Some 2,
      storage = Some ''S1'', timers = [(2, 299000)], nextTimerId = 3, requests = [],
      dispatched = []\<rparr>"
  by (simp add: typing_page_def page_S1_eq timer_defs elapse_def)

lemma emptied_page_eq:
  "emptied_page = \<lparr>sessionId = Some '''', isActive = True, inactivityTimer = None,
      storage = Some '''', timers = [], nextTimerId = 1,
      requests = [upload_request [''a.pdf'']], dispatched = []\<rparr>"
  by (simp add: emptied_page_def uploadFiles_def upload_empty_def page_S1_eq fetch_def
      setItem_def)

section \<open>The activity state\<close>

lemma isActive_dispatch:
  "isActive (dispatch e s) =
     (case e of Focus \<Rightarrow> True | Blur \<Rightarrow> False | VisibilityChange hidden \<Rightarrow> \<not> hidden
      | Activity a \<Rightarrow> isActive s)"
  by (cases e) (auto simp: timer_defs Let_def split: option.splits)

lemma deliver_append: "deliver (es @ fs) s = deliver fs (deliver es s)"
  by (induction es arbitrary: s) simp_all

lemma isActive_constructor: "isActive (constructor rnd stored)"
  by (simp add: constructor_def init_def fresh_page_def getOrCreateSessionId_def setItem_def
      Let_def split: option.splits)

lemma most_recent_snoc:
  "most_recent (es @ [e]) = (if is_activity e then most_recent es else Some e)"
  by (simp add: most_recent_def)

text \<open>
  C5. After any finite sequence of events delivered to a freshly constructed manager
  (focus, blur and visibility changes, with input events anywhere in between), the
  manager is active exactly when the most recent focus, blur or visibility event was a
  focus or a visibility change to shown, or when there was no such event.
\<close>

theorem activity_state_most_recent:
  "isActive (deliver evs (constructor rnd stored)) \<longleftrightarrow>
     most_recent evs \<in> {None, Some Focus, Some (VisibilityChange False)}"
proof (induction evs rule: rev_induct)
  case Nil
  show ?case by (simp add: isActive_constructor most_recent_def)
next
  case (snoc e es)
  show ?case
  proof (cases e)
    case (Activity a)
    with snoc show ?thesis
      by (simp add: deliver_append isActive_dispatch most_recent_snoc is_activity_def
          del: dispatch.simps)
  qed (simp_all add: deliver_append isActive_dispatch most_recent_snoc is_activity_def
        del: dispatch.simps)
qed

theorem activity_state_most_recent_witness:
  "most_recent [Blur, Activity MouseMove, VisibilityChange False, Activity KeyPress]
     = Some (VisibilityChange False) \<and>
   isActive (deliver [Blur, Activity MouseMove, VisibilityChange False, Activity KeyPress]
     (constructor half_draws None)) \<and>
   most_recent [Focus, VisibilityChange True] = Some (VisibilityChange True) \<and>
   \<not> isActive (deliver [Focus, VisibilityChange True] (constructor half_draws None))"
  using activity_state_most_recent
      [of "[Blur, Activity MouseMove, VisibilityChange False, Activity KeyPress]" half_draws None]
    activity_state_most_recent [of "[Focus, VisibilityChange True]" half_draws None]
  by (simp add: most_recent_def is_activity_def del: deliver.simps)

section \<open>The inactivity timer\<close>

lemma timer_inv_constructor: "timer_inv (constructor rnd stored)"
  by (simp add: timer_inv_def constructor_def init_def fresh_page_def getOrCreateSessionId_def
      setItem_def Let_def split: option.splits)

lemma timer_inv_clear: "timer_inv s \<Longrightarrow> timer_inv (clearInactivityTimer s)"
  by (auto simp: timer_inv_def clearInactivityTimer_def clearTimeout_def split: option.splits)

lemma clear_gives_null:
  "timer_inv s \<Longrightarrow> inactivityTimer (clearInactivityTimer s) = None"
  by (auto simp: timer_inv_def clearInactivityTimer_def clearTimeout_def split: option.splits)

lemma timer_inv_start: "timer_inv s \<Longrightarrow> timer_inv (startInactivityTimer s)"
  by (auto simp: timer_inv_def startInactivityTimer_def clearInactivityTimer_def
      clearTimeout_def setTimeout_def Let_def split: option.splits)

lemma start_gives_handle: "inactivityTimer (startInactivityTimer s) = None \<longleftrightarrow> False"
  by (simp add: startInactivityTimer_def setTimeout_def Let_def)

lemma timer_inv_isActive: "timer_inv (s\<lparr>isActive := b\<rparr>) = timer_inv s"
  by (simp add: timer_inv_def split: option.splits)

lemma timer_inv_dispatch: "timer_inv s \<Longrightarrow> timer_inv (dispatch e s)"
  by (cases e)
    (simp_all add: onActivityResume_def onActivityPause_def resetInactivityTimer_def
      timer_inv_clear timer_inv_start timer_inv_isActive)

lemma timer_inv_deliver: "timer_inv s \<Longrightarrow> timer_inv (deliver evs s)"
  by (induction evs arbitrary: s) (simp_all add: timer_inv_dispatch del: dispatch.simps)

text \<open>So at most one timeout is pending after any such sequence of events.\<close>

lemma at_most_one_timer: "length (timers (deliver evs (constructor rnd stored))) \<le> 1"
  using timer_inv_deliver [OF timer_inv_constructor, of evs rnd stored]
  by (simp add: timer_inv_def split: option.splits)

lemma handle_dispatch:
  assumes "timer_inv s"
  shows "inactivityTimer (dispatch e s) = None \<longleftrightarrow>
     (case e of Focus \<Rightarrow> True | Blur \<Rightarrow> False | VisibilityChange hidden \<Rightarrow> \<not> hidden
      | Activity a \<Rightarrow> \<not> isActive s \<and> inactivityTimer s = None)"
proof (cases e)
  case Focus
  then show ?thesis
    using assms by (simp add: onActivityResume_def clear_gives_null timer_inv_isActive)
next
  case Blur
  then show ?thesis by (simp add: onActivityPause_def start_gives_handle)
next
  case (VisibilityChange hidden)
  then show ?thesis
    using assms
    by (simp add: onActivityResume_def onActivityPause_def clear_gives_null
        start_gives_handle timer_inv_isActive)
next
  case (Activity a)
  then show ?thesis by (simp add: resetInactivityTimer_def start_gives_handle)
qed

lemma armed_iff_handle: "timer_inv s \<Longrightarrow> armed s \<longleftrightarrow> \<not> inactivityTimer s = None"
  by (auto simp: timer_inv_def armed_def split: option.splits)

lemma handle_after_events:
  "inactivityTimer (deliver evs (constructor rnd stored)) = None \<longleftrightarrow>
     isActive (deliver evs (constructor rnd stored)) \<and> (evs = [] \<or> \<not> is_activity (last evs))"
proof (induction evs rule: rev_induct)
  case Nil
  show ?case
    by (simp add: isActive_constructor)
      (simp add: constructor_def init_def fresh_page_def getOrCreateSessionId_def
        setItem_def Let_def split: option.splits)
next
  case (snoc e es)
  let ?s = "deliver es (constructor rnd stored)"
  have inv: "timer_inv ?s" by (rule timer_inv_deliver [OF timer_inv_constructor])
  show ?case
  proof (cases e)
    case (Activity a)
    with snoc show ?thesis
      by (auto simp: deliver_append handle_dispatch [OF inv] isActive_dispatch is_activity_def
          simp del: dispatch.simps)
  qed (simp_all add: deliver_append handle_dispatch [OF inv] isActive_dispatch is_activity_def
        del: dispatch.simps)
qed

text \<open>
  C1, as stated, fails. On the page holding \<^verbatim>\<open>S1\<close> a single \<^verbatim>\<open>mousemove\<close> leaves
  the manager active with its timer armed, and five minutes later that timer fires,
  while the manager is still active, and sends the delete request.
\<close>

theorem timer_armed_while_active:
  "isActive (deliver [Activity MouseMove] page_S1) \<and>
   armed (deliver [Activity MouseMove] page_S1) \<and>
   map_option isActive
     (fire 1 ok_response (elapse INACTIVITY_TIMEOUT (deliver [Activity MouseMove] page_S1)))
     = Some True \<and>
   map_option requests
     (fire 1 ok_response (elapse INACTIVITY_TIMEOUT (deliver [Activity MouseMove] page_S1)))
     = Some [delete_request ''S1'']"
  by (simp add: page_S1_eq timer_defs armed_def elapse_def fire_def cleanupSession_def
      fetch_def removeItem_def ok_response_def)

text \<open>
  C1, amended. After any sequence of focus, blur, visibility and input events delivered
  to a freshly constructed manager, the inactivity timer is armed exactly when the
  manager is paused, or the last event was an input event (which, the manager being
  active, re-armed it). So paused implies armed, and an active manager has a timer
  armed from its last input event until the next focus, blur or visibility event.
\<close>

theorem timer_armed_iff:
  "armed (deliver evs (constructor rnd stored)) \<longleftrightarrow>
     \<not> isActive (deliver evs (constructor rnd stored)) \<or> (evs \<noteq> [] \<and> is_activity (last evs))"
  using armed_iff_handle [OF timer_inv_deliver [OF timer_inv_constructor]] handle_after_events
  by simp

theorem timer_armed_iff_witness:
  "\<not> isActive (deliver [Activity MouseMove, Blur, Activity Scroll] page_S1) \<and>
   armed (deliver [Activity MouseMove, Blur, Activity Scroll] page_S1) \<and>
   isActive (deliver [Blur, Focus] page_S1) \<and>
   \<not> armed (deliver [Blur, Focus] page_S1)"
proof -
  have "\<not> isActive (deliver [Activity MouseMove, Blur, Activity Scroll] page_S1)"
    and "isActive (deliver [Blur, Focus] page_S1)"
    by (simp_all add: page_S1_eq timer_defs)
  then show ?thesis
    using timer_armed_iff [of "[Activity MouseMove, Blur, Activity Scroll]" half_draws "Some ''S1''"]
      timer_armed_iff [of "[Blur, Focus]" half_draws "Some ''S1''"]
    by (simp add: page_S1_def is_activity_def)
qed

lemma map_of_fresh:
  "\<forall>p \<in> set xs. fst p \<noteq> k \<Longrightarrow> map_of (xs @ [(k, v)]) k = Some v"
  by (induction xs) auto

lemma reset_active:
  assumes "isActive s"
  shows "isActive (resetInactivityTimer s)"
    and "inactivityTimer (resetInactivityTimer s) = Some (nextTimerId s)"
    and "timers (resetInactivityTimer s) =
           filter (\<lambda>p. Some (fst p) \<noteq> inactivityTimer s \<or> fst p = 0) (timers s)
             @ [(nextTimerId s, INACTIVITY_TIMEOUT)]"
  using assms
  by (auto simp: resetInactivityTimer_def startInactivityTimer_def clearInactivityTimer_def
      setTimeout_def clearTimeout_def Let_def split: option.splits intro: filter_cong)

lemma timer_inv_fresh: "timer_inv s \<Longrightarrow> handles_fresh s"
  by (auto simp: timer_inv_def handles_fresh_def split: option.splits)

lemma handles_fresh_reachable: "handles_fresh (deliver evs (constructor rnd stored))"
  by (rule timer_inv_fresh [OF timer_inv_deliver [OF timer_inv_constructor]])

text \<open>
  Every operation of the page keeps the handles in order, so the condition holds in every
  state the manager can be in.
\<close>

lemma handles_fresh_cong:
  "timers s' = timers s \<Longrightarrow> nextTimerId s' = nextTimerId s \<Longrightarrow>
     inactivityTimer s' = inactivityTimer s \<Longrightarrow> handles_fresh s' = handles_fresh s"
  by (simp add: handles_fresh_def split: option.splits)

lemma handles_fresh_constructor: "handles_fresh (constructor rnd stored)"
  by (simp add: handles_fresh_def constructor_def init_def fresh_page_def
      getOrCreateSessionId_def setItem_def Let_def split: option.splits)

lemma handles_fresh_clear: "handles_fresh s \<Longrightarrow> handles_fresh (clearInactivityTimer s)"
  by (auto simp: handles_fresh_def clearInactivityTimer_def clearTimeout_def
      split: option.splits)

lemma handles_fresh_start: "handles_fresh s \<Longrightarrow> handles_fresh (startInactivityTimer s)"
  by (auto simp: handles_fresh_def startInactivityTimer_def clearInactivityTimer_def
      clearTimeout_def setTimeout_def Let_def less_Suc_eq split: option.splits)

lemma handles_fresh_isActive: "handles_fresh (s\<lparr>isActive := b\<rparr>) = handles_fresh s"
  by (rule handles_fresh_cong) simp_all

lemma handles_fresh_dispatch: "handles_fresh s \<Longrightarrow> handles_fresh (dispatch e s)"
  by (cases e)
    (simp_all add: onActivityResume_def onActivityPause_def resetInactivityTimer_def
      handles_fresh_clear handles_fresh_start handles_fresh_isActive)

lemma handles_fresh_cleanup: "handles_fresh (cleanupSession r s) = handles_fresh s"
  by (rule handles_fresh_cong)
    (simp_all add: cleanupSession_def fetch_def removeItem_def Let_def
      split: option.splits fetch_result.splits)

lemma handles_fresh_manualCleanup: "handles_fresh (manualCleanup r rnd s) = handles_fresh s"
  by (rule handles_fresh_cong)
    (simp_all add: manualCleanup_def notifySessionChange_def setItem_def
      cleanupSession_def fetch_def removeItem_def Let_def
      split: option.splits fetch_result.splits)

lemma handles_fresh_upload: "handles_fresh (snd (uploadFiles files r s)) = handles_fresh s"
  by (rule handles_fresh_cong)
    (simp_all add: uploadFiles_def fetch_def setItem_def Let_def
      split: fetch_result.splits sum.splits)

lemma handles_fresh_send: "handles_fresh (snd (sendMessage m r s)) = handles_fresh s"
  by (rule handles_fresh_cong)
    (simp_all add: sendMessage_def fetch_def Let_def
      split: option.splits fetch_result.splits sum.splits)

lemma handles_fresh_elapse: "handles_fresh (elapse d s) = handles_fresh s"
  by (simp add: handles_fresh_def elapse_def split: option.splits)

lemma handles_fresh_fire:
  assumes "handles_fresh s" "fire h r s = Some s'"
  shows "handles_fresh s'"
proof -
  let ?s = "s\<lparr>timers := filter (\<lambda>p. fst p \<noteq> h) (timers s)\<rparr>"
  from assms(2) have "s' = cleanupSession r ?s"
    by (simp add: fire_def split: if_splits)
  moreover from assms(1) have "handles_fresh ?s"
    by (auto simp: handles_fresh_def split: option.splits)
  ultimately show ?thesis by (simp add: handles_fresh_cleanup)
qed

text \<open>
  C6. An input event (any of the five) delivered to an active manager leaves it active
  with its timer armed and the full five minutes, 300000 ms, to wait, the timeout it
  held before being cancelled; delivered to a paused manager it changes nothing at all.
  The active half is for pages whose handles were handed out in order, as they are in
  every state the manager can be in.
\<close>

theorem input_activity_resets_timer:
  "(isActive s \<and> handles_fresh s \<longrightarrow>
      isActive (dispatch (Activity a) s) \<and>
      armed (dispatch (Activity a) s) \<and>
      remaining (dispatch (Activity a) s) = Some (5 * 60 * 1000) \<and>
      (\<forall>h. inactivityTimer s = Some h \<and> h \<noteq> 0 \<longrightarrow>
         h \<notin> fst ` set (timers (dispatch (Activity a) s))))
   \<and> (\<not> isActive s \<longrightarrow> dispatch (Activity a) s = s)"
proof (intro conjI impI)
  assume "\<not> isActive s"
  then show "dispatch (Activity a) s = s" by (simp add: resetInactivityTimer_def)
next
  assume a: "isActive s \<and> handles_fresh s"
  then have act: "isActive s" and fresh: "handles_fresh s" by simp_all
  let ?old = "filter (\<lambda>p. Some (fst p) \<noteq> inactivityTimer s \<or> fst p = 0) (timers s)"
  note r = reset_active [OF act]
  show "isActive (dispatch (Activity a) s)" using r(1) by simp
  show "armed (dispatch (Activity a) s)" by (simp add: armed_def r)
  have "\<forall>p \<in> set ?old. fst p \<noteq> nextTimerId s"
    using fresh by (auto simp: handles_fresh_def)
  then have "map_of (?old @ [(nextTimerId s, INACTIVITY_TIMEOUT)]) (nextTimerId s)
      = Some INACTIVITY_TIMEOUT"
    by (rule map_of_fresh)
  then show "remaining (dispatch (Activity a) s) = Some (5 * 60 * 1000)"
    by (simp add: remaining_def r INACTIVITY_TIMEOUT_def)
  show "\<forall>h. inactivityTimer s = Some h \<and> h \<noteq> 0 \<longrightarrow>
         h \<notin> fst ` set (timers (dispatch (Activity a) s))"
    using fresh by (auto simp: r handles_fresh_def)
qed

theorem input_activity_resets_timer_witness:
  "isActive typing_page \<and> handles_fresh typing_page \<and>
   remaining typing_page = Some 299000 \<and>
   isActive (dispatch (Activity KeyPress) typing_page) \<and>
   remaining (dispatch (Activity KeyPress) typing_page) = Some 300000 \<and>
   \<not> isActive hidden_page \<and>
   dispatch (Activity KeyPress) hidden_page = hidden_page"
proof -
  have a: "isActive typing_page \<and> handles_fresh typing_page"
    by (simp add: typing_page_eq handles_fresh_def)
  have b: "\<not> isActive hidden_page"
    by (simp add: hidden_page_eq)
  have d: "remaining typing_page = Some 299000"
    by (simp add: typing_page_eq remaining_def)
  show ?thesis
    using a b d input_activity_resets_timer [of typing_page KeyPress]
      input_activity_resets_timer [of hidden_page KeyPress]
    by simp
qed

section \<open>Cleanup\<close>

text \<open>
  C2, as stated, fails. The page holding \<^verbatim>\<open>S1\<close> is blurred, which arms the timer;
  a cleanup whose delete succeeds clears the identifier, and the timeout is still pending
  with its full delay and fires five minutes later.
\<close>

theorem cleanup_leaves_timer_pending:
  "armed hidden_page \<and>
   sessionId (cleanupSession ok_response hidden_page) = None \<and>
   armed (cleanupSession ok_response hidden_page) \<and>
   timers (cleanupSession ok_response hidden_page) = [(1, INACTIVITY_TIMEOUT)] \<and>
   fire 1 ok_response (elapse INACTIVITY_TIMEOUT (cleanupSession ok_response hidden_page))
     \<noteq> None"
  by (simp add: hidden_page_eq INACTIVITY_TIMEOUT_def armed_def elapse_def fire_def
      cleanupSession_def fetch_def removeItem_def ok_response_def)

text \<open>
  C2, amended. \<^verbatim>\<open>cleanupSession\<close> never touches the inactivity timer: whatever the
  answer to its request, the pending timeouts, the handle the manager holds, whether the
  timer is armed and the delay it has left are the same after the call as before it.
\<close>

theorem cleanupSession_keeps_timer:
  "timers (cleanupSession r s) = timers s \<and>
   inactivityTimer (cleanupSession r s) = inactivityTimer s \<and>
   armed (cleanupSession r s) = armed s \<and>
   remaining (cleanupSession r s) = remaining s"
  by (simp add: cleanupSession_def fetch_def removeItem_def armed_def remaining_def Let_def
      split: option.splits fetch_result.splits)

text \<open>
  C3. When the delete request fails (the \<^verbatim>\<open>fetch\<close> is rejected, or the response is
  not \<^verbatim>\<open>ok\<close>), \<^verbatim>\<open>cleanupSession\<close> leaves \<^verbatim>\<open>sessionId\<close> and the storage slot as
  they were; when it succeeds for an identifier that is held, both are cleared.
\<close>

theorem cleanup_failure_keeps_identifier:
  "(\<not> fetch_succeeded r \<longrightarrow>
      sessionId (cleanupSession r s) = sessionId s \<and> storage (cleanupSession r s) = storage s)
   \<and> (fetch_succeeded r \<and> \<not> falsy (sessionId s) \<longrightarrow>
      sessionId (cleanupSession r s) = None \<and> storage (cleanupSession r s) = None)"
  by (simp add: cleanupSession_def fetch_def removeItem_def fetch_succeeded_def falsy_def Let_def
      split: option.splits fetch_result.splits)

theorem cleanup_failure_keeps_identifier_witness:
  "\<not> fetch_succeeded error_response \<and>
   sessionId (cleanupSession error_response page_S1) = Some ''S1'' \<and>
   storage (cleanupSession error_response page_S1) = Some ''S1'' \<and>
   requests (cleanupSession error_response page_S1) = [delete_request ''S1''] \<and>
   fetch_succeeded ok_response \<and> \<not> falsy (sessionId page_S1) \<and>
   sessionId (cleanupSession ok_response page_S1) = None \<and>
   storage (cleanupSession ok_response page_S1) = None"
proof -
  have f: "\<not> fetch_succeeded error_response"
    by (simp add: fetch_succeeded_def error_response_def)
  have g: "fetch_succeeded ok_response \<and> \<not> falsy (sessionId page_S1)"
    by (simp add: fetch_succeeded_def ok_response_def falsy_def page_S1_eq)
  have r: "requests (cleanupSession error_response page_S1) = [delete_request ''S1'']"
    by (simp add: cleanupSession_def fetch_def error_response_def page_S1_eq)
  show ?thesis
    using f g r cleanup_failure_keeps_identifier [of error_response page_S1]
      cleanup_failure_keeps_identifier [of ok_response page_S1]
    by (simp add: page_S1_eq)
qed

text \<open>
  C7, as stated, fails. On the page holding \<^verbatim>\<open>S1\<close> a cleanup whose delete is answered
  with an error status keeps the identifier, so the cleanup that follows sends the delete
  request a second time and, answered with success, changes the state: it is no no-op.
\<close>

theorem second_cleanup_after_failure:
  "requests (cleanupSession error_response page_S1) = [delete_request ''S1''] \<and>
   requests (cleanupSession ok_response (cleanupSession error_response page_S1))
     = [delete_request ''S1'', delete_request ''S1''] \<and>
   cleanupSession ok_response (cleanupSession error_response page_S1)
     \<noteq> cleanupSession error_response page_S1"
  by (simp add: page_S1_eq cleanupSession_def fetch_def removeItem_def ok_response_def
      error_response_def)

text \<open>
  C7, amended. \<^verbatim>\<open>cleanupSession\<close> with no identifier held is a no-op that sends no
  request. Of two cleanups in a row, each run to its end before the next starts, the
  second is a no-op when the delete of the first succeeded, and just one delete request
  is sent for a held identifier; when the delete of the first failed, the identifier is
  kept and the second cleanup sends the delete request again.
\<close>

theorem cleanup_idempotent_after_success:
  "(falsy (sessionId s) \<longrightarrow>
      cleanupSession r s = s \<and> requests (cleanupSession r s) = requests s)
   \<and> (fetch_succeeded r1 \<longrightarrow>
      cleanupSession r2 (cleanupSession r1 s) = cleanupSession r1 s \<and>
      requests (cleanupSession r2 (cleanupSession r1 s)) =
        requests s @ (case sessionId s of None \<Rightarrow> []
                      | Some sid \<Rightarrow> if sid = [] then [] else [delete_request sid]))
   \<and> (\<not> fetch_succeeded r1 \<longrightarrow>
      requests (cleanupSession r2 (cleanupSession r1 s)) =
        requests s @ (case sessionId s of None \<Rightarrow> []
                      | Some sid \<Rightarrow> if sid = [] then []
                                   else [delete_request sid, delete_request sid]))"
  by (simp add: cleanupSession_def fetch_def removeItem_def fetch_succeeded_def falsy_def Let_def
      split: option.splits fetch_result.splits)

theorem cleanup_idempotent_after_success_witness:
  "falsy (sessionId (cleanupSession ok_response page_S1)) \<and>
   fetch_succeeded ok_response \<and>
   cleanupSession error_response (cleanupSession ok_response page_S1)
     = cleanupSession ok_response page_S1 \<and>
   requests (cleanupSession error_response (cleanupSession ok_response page_S1))
     = [delete_request ''S1''] \<and>
   \<not> fetch_succeeded error_response \<and>
   requests (cleanupSession ok_response (cleanupSession error_response page_S1))
     = [delete_request ''S1'', delete_request ''S1'']"
proof -
  have a: "falsy (sessionId (cleanupSession ok_response page_S1))"
    by (simp add: page_S1_eq cleanupSession_def fetch_def removeItem_def ok_response_def
        falsy_def)
  have b: "fetch_succeeded ok_response" "\<not> fetch_succeeded error_response"
    by (simp_all add: fetch_succeeded_def ok_response_def error_response_def)
  show ?thesis
    using a b
      cleanup_idempotent_after_success
        [of page_S1 error_response ok_response error_response]
      cleanup_idempotent_after_success
        [of page_S1 error_response error_response ok_response]
    by (simp add: page_S1_eq cleanupSession_def fetch_def removeItem_def ok_response_def)
qed

text \<open>
  C4. Whatever the answer to the delete request of its cleanup, \<^verbatim>\<open>manualCleanup\<close>
  ends with a newly generated identifier in \<^verbatim>\<open>sessionId\<close> and in the storage slot,
  and has raised one more \<^verbatim>\<open>sessionChanged\<close> event, which carries that identifier;
  the requests it has sent are those of the cleanup: the delete request for the
  identifier held before, if one was held.
\<close>

theorem manualCleanup_new_identifier:
  "sessionId (manualCleanup r rnd s) = Some (generateSessionId rnd) \<and>
   storage (manualCleanup r rnd s) = Some (generateSessionId rnd) \<and>
   dispatched (manualCleanup r rnd s) = dispatched s @ [Some (generateSessionId rnd)] \<and>
   requests (manualCleanup r rnd s) = requests (cleanupSession r s) \<and>
   requests (cleanupSession r s) =
     requests s @ (case sessionId s of None \<Rightarrow> []
                   | Some sid \<Rightarrow> if sid = [] then [] else [delete_request sid])"
  by (simp add: manualCleanup_def notifySessionChange_def setItem_def cleanupSession_def
      fetch_def removeItem_def Let_def split: option.splits fetch_result.splits)

section \<open>Chat and upload\<close>

text \<open>
  C8, as stated, fails. After an upload that the server answered with an empty
  \<^verbatim>\<open>session_id\<close> the identifier is the empty string, which is not \<^verbatim>\<open>null\<close>, and
  \<^verbatim>\<open>sendMessage\<close> throws the no-active-session error without sending anything.
\<close>

theorem sendMessage_empty_identifier:
  "sessionId emptied_page \<noteq> None \<and>
   sendMessage ''hello'' chat_ok emptied_page = (Inl no_active_session, emptied_page)"
  by (simp add: emptied_page_eq sendMessage_def)

text \<open>
  C8, amended. \<^verbatim>\<open>sendMessage\<close> with \<^verbatim>\<open>sessionId\<close> \<^verbatim>\<open>null\<close> or the empty string throws
  the no-active-session error and leaves the state, the requests sent among it, as it
  was. With a non-empty identifier it sends the chat request with the message and the
  identifier, changes nothing else, and returns the parsed body of an \<^verbatim>\<open>ok\<close>
  response; it throws \<^verbatim>\<open>Chat failed:\<close> with the status text on a response that is not
  \<^verbatim>\<open>ok\<close>, and what \<^verbatim>\<open>fetch\<close> or the reading of the body threw otherwise.
\<close>

theorem sendMessage_outcome:
  "(falsy (sessionId s) \<longrightarrow> sendMessage m r s = (Inl no_active_session, s))
   \<and> (\<forall>sid. sessionId s = Some sid \<and> sid \<noteq> [] \<longrightarrow>
        snd (sendMessage m r s) = s\<lparr>requests := requests s @ [chat_request m sid]\<rparr> \<and>
        fst (sendMessage m r s) =
          (case r of
             Rejected e \<Rightarrow> Inl e
           | Resolved resp \<Rightarrow>
               if ok resp then json resp
               else Inl (JsError ''Error'' (''Chat failed: '' @ statusText resp))))"
  by (auto simp: sendMessage_def falsy_def fetch_def Let_def
      split: option.splits fetch_result.splits sum.splits)

theorem sendMessage_outcome_witness:
  "falsy (sessionId (cleanupSession ok_response page_S1)) \<and>
   sendMessage ''hello'' chat_ok (cleanupSession ok_response page_S1)
     = (Inl no_active_session, cleanupSession ok_response page_S1) \<and>
   sessionId page_S1 = Some ''S1'' \<and> ''S1'' \<noteq> [] \<and>
   requests (snd (sendMessage ''hello'' chat_ok page_S1)) = [chat_request ''hello'' ''S1''] \<and>
   fst (sendMessage ''hello'' chat_ok page_S1) = Inr ''answer''"
proof -
  have a: "falsy (sessionId (cleanupSession ok_response page_S1))"
    by (simp add: page_S1_eq cleanupSession_def fetch_def removeItem_def ok_response_def
        falsy_def)
  have b: "sessionId page_S1 = Some ''S1'' \<and> ''S1'' \<noteq> []"
    by (simp add: page_S1_eq)
  show ?thesis
    using a b sendMessage_outcome [of "cleanupSession ok_response page_S1" "''hello''" chat_ok]
      sendMessage_outcome [of page_S1 "''hello''" chat_ok]
    by (simp add: chat_ok_def page_S1_eq)
qed

text \<open>
  C9, as stated, fails. The page holds \<^verbatim>\<open>S1\<close>; the upload succeeds and the server's
  \<^verbatim>\<open>session_id\<close> is the empty string; the \<^verbatim>\<open>sendMessage\<close> that follows throws the
  no-active-session error and sends no chat request, so it carries no identifier.
\<close>

theorem upload_empty_identifier:
  "sessionId page_S1 = Some ''S1'' \<and>
   fst (uploadFiles [''a.pdf''] upload_empty page_S1) = Inr \<lparr>session_id = ''''\<rparr> \<and>
   fst (sendMessage ''hello'' chat_ok (snd (uploadFiles [''a.pdf''] upload_empty page_S1)))
     = Inl no_active_session \<and>
   requests (snd (sendMessage ''hello'' chat_ok (snd (uploadFiles [''a.pdf''] upload_empty page_S1))))
     = [upload_request [''a.pdf'']]"
  by (simp add: uploadFiles_def upload_empty_def page_S1_eq fetch_def setItem_def
      sendMessage_def)

lemma sendMessage_keeps:
  "sessionId (snd (sendMessage m r s)) = sessionId s"
  "storage (snd (sendMessage m r s)) = storage s"
  by (simp_all add: sendMessage_def fetch_def Let_def
      split: option.splits fetch_result.splits sum.splits)

lemma sendMessage_requests:
  "sessionId s = Some sid \<Longrightarrow> sid \<noteq> [] \<Longrightarrow>
     requests (snd (sendMessage m r s)) = requests s @ [chat_request m sid]"
  by (simp add: sendMessage_def fetch_def Let_def split: fetch_result.splits sum.splits)

lemma sendMessages_requests:
  "sessionId s = Some sid \<Longrightarrow> sid \<noteq> [] \<Longrightarrow>
     sessionId (sendMessages ms s) = Some sid \<and>
     requests (sendMessages ms s) = requests s @ map (\<lambda>p. chat_request (fst p) sid) ms"
proof (induction ms arbitrary: s)
  case Nil
  then show ?case by simp
next
  case (Cons p ms)
  obtain m r where p: "p = (m, r)" by (cases p)
  let ?s = "snd (sendMessage m r s)"
  have "sessionId ?s = Some sid" using Cons.prems by (simp add: sendMessage_keeps)
  from Cons.IH [OF this Cons.prems(2)] sendMessage_requests [OF Cons.prems, of m r]
  show ?case by (simp add: p)
qed

text \<open>
  C9, amended. When the upload's response is \<^verbatim>\<open>ok\<close> and its body parses,
  \<^verbatim>\<open>uploadFiles\<close> returns the body and overwrites \<^verbatim>\<open>sessionId\<close> and the storage slot
  with the body's \<^verbatim>\<open>session_id\<close>; when that identifier is not empty, every
  \<^verbatim>\<open>sendMessage\<close> of the run of calls that follows sends a chat request carrying it.
\<close>

theorem upload_overwrites_identifier:
  "ok resp \<and> json resp = Inr result \<longrightarrow>
     fst (uploadFiles files (Resolved resp) s) = Inr result \<and>
     sessionId (snd (uploadFiles files (Resolved resp) s)) = Some (session_id result) \<and>
     storage (snd (uploadFiles files (Resolved resp) s)) = Some (session_id result) \<and>
     (session_id result \<noteq> [] \<longrightarrow>
        requests (sendMessages ms (snd (uploadFiles files (Resolved resp) s)))
          = requests s @ [upload_request files]
              @ map (\<lambda>p. chat_request (fst p) (session_id result)) ms)"
proof (intro impI)
  assume a: "ok resp \<and> json resp = Inr result"
  let ?s = "snd (uploadFiles files (Resolved resp) s)"
  have s: "uploadFiles files (Resolved resp) s =
      (Inr result, s\<lparr>requests := requests s @ [upload_request files],
                     sessionId := Some (session_id result),
                     storage := Some (session_id result)\<rparr>)"
    using a by (simp add: uploadFiles_def fetch_def setItem_def)
  have sid: "sessionId ?s = Some (session_id result)" by (simp add: s)
  show "fst (uploadFiles files (Resolved resp) s) = Inr result \<and>
     sessionId ?s = Some (session_id result) \<and>
     storage ?s = Some (session_id result) \<and>
     (session_id result \<noteq> [] \<longrightarrow>
        requests (sendMessages ms ?s)
          = requests s @ [upload_request files]
              @ map (\<lambda>p. chat_request (fst p) (session_id result)) ms)"
    using sendMessages_requests [OF sid, of ms] by (simp add: s)
qed

theorem upload_overwrites_identifier_witness:
  "sessionId page_S1 = Some ''S1'' \<and>
   sessionId (snd (uploadFiles [''a.pdf''] upload_S2 page_S1)) = Some ''S2'' \<and>
   storage (snd (uploadFiles [''a.pdf''] upload_S2 page_S1)) = Some ''S2'' \<and>
   requests (sendMessages [(''hello'', chat_ok), (''again'', chat_ok)]
       (snd (uploadFiles [''a.pdf''] upload_S2 page_S1)))
     = [upload_request [''a.pdf''], chat_request ''hello'' ''S2'', chat_request ''again'' ''S2'']"
proof -
  have a: "ok (Response True ''OK'' (Inr \<lparr>session_id = ''S2''\<rparr>)) \<and>
      json (Response True ''OK'' (Inr \<lparr>session_id = ''S2''\<rparr>)) = Inr \<lparr>session_id = ''S2''\<rparr>"
    by simp
  show ?thesis
    using a upload_overwrites_identifier
      [of "Response True ''OK'' (Inr \<lparr>session_id = ''S2''\<rparr>)" "\<lparr>session_id = ''S2''\<rparr>"
        "[''a.pdf'']" page_S1 "[(''hello'', chat_ok), (''again'', chat_ok)]"]
    by (simp add: upload_S2_def page_S1_eq del: sendMessages.simps)
qed

end
